theory Spec2Isabelle
  imports Main "HOL-Library.Sublist" "HOL-Library.List_Lexorder" "HOL-Library.Char_ord"
begin

section \<open>Python values used by \<open>zeekpkg/package.py\<close>\<close>

text \<open>
  Python strings are modelled as \<^typ>\<open>string\<close> (lists of characters, compared
  character by character), the exceptions the module can raise as the constructors of
  \<open>error\<close>, and a call that may raise as a value of \<open>error + 'a\<close>.
\<close>

datatype error = AssertionError | ValueError | IndexError | AttributeError

definition dq :: string where
  "dq = [CHR 0x22]"

text \<open>\<open>str.rstrip(chars)\<close>: every trailing character that is in \<open>chars\<close> is removed.\<close>

definition rstrip :: "string \<Rightarrow> string \<Rightarrow> string" where
  "rstrip chars s = rev (dropWhile (\<lambda>c. c \<in> set chars) (rev s))"

text \<open>\<open>str.split(sep)\<close> for a one-character separator: never empty, keeps empty fields.\<close>

fun str_split :: "char \<Rightarrow> string \<Rightarrow> string list" where
  "str_split sep [] = [[]]"
| "str_split sep (c # cs) =
     (if c = sep then [] # str_split sep cs
      else (case str_split sep cs of
              [] \<Rightarrow> [[c]]
            | w # ws \<Rightarrow> (c # w) # ws))"

text \<open>
  \<open>str.isspace\<close> on one character, for the code points below 256:
  tab, line feed, vertical tab, form feed, carriage return, the four separators
  \<open>0x1c .. 0x1f\<close>, space, next line \<open>0x85\<close> and no-break space \<open>0xa0\<close>.
\<close>

definition isspace :: "char \<Rightarrow> bool" where
  "isspace c = (c \<in> set [CHR 0x09, CHR 0x0A, CHR 0x0B, CHR 0x0C, CHR 0x0D,
                           CHR 0x1C, CHR 0x1D, CHR 0x1E, CHR 0x1F, CHR 0x20,
                           CHR 0x85, CHR 0xA0])"

text \<open>
  \<open>str.split()\<close> without a separator: the maximal runs of non-whitespace characters, in
  order. \<open>cur\<close> is the token being read, reversed.
\<close>

fun split_ws_from :: "string \<Rightarrow> string \<Rightarrow> string list" where
  "split_ws_from cur [] = (if cur = [] then [] else [rev cur])"
| "split_ws_from cur (c # cs) =
     (if isspace c
      then (if cur = [] then split_ws_from [] cs else rev cur # split_ws_from [] cs)
      else split_ws_from (c # cur) cs)"

definition split_ws :: "string \<Rightarrow> string list" where
  "split_ws s = split_ws_from [] s"

text \<open>\<open>xs[i]\<close> with Python's negative indices; out of range raises \<open>IndexError\<close>.\<close>

definition py_index :: "'a list \<Rightarrow> int \<Rightarrow> error + 'a" where
  "py_index xs i =
     (if 0 \<le> i \<and> i < int (length xs) then Inr (xs ! nat i)
      else if i < 0 \<and> - i \<le> int (length xs) then Inr (xs ! nat (int (length xs) + i))
      else Inl IndexError)"

text \<open>How an f-string renders a value of type \<open>str | None\<close>.\<close>

fun fmt_opt :: "string option \<Rightarrow> string" where
  "fmt_opt None = ''None''"
| "fmt_opt (Some s) = s"

section \<open>Constants of the module\<close>

definition TRACKING_METHOD_VERSION :: string where
  "TRACKING_METHOD_VERSION = ''version''"

definition TRACKING_METHOD_BRANCH :: string where
  "TRACKING_METHOD_BRANCH = ''branch''"

definition TRACKING_METHOD_COMMIT :: string where
  "TRACKING_METHOD_COMMIT = ''commit''"

definition TRACKING_METHOD_BUILTIN :: string where
  "TRACKING_METHOD_BUILTIN = ''builtin''"

definition BUILTIN_SOURCE :: string where
  "BUILTIN_SOURCE = ''zeek-builtin''"

definition BUILTIN_SCHEME :: string where
  "BUILTIN_SCHEME = ''zeek-builtin://''"

section \<open>External collaborators\<close>

text \<open>
  \<open>fullfills\<close> calls \<open>normalize_version_tag\<close> of \<open>zeekpkg._util\<close> and the
  \<open>semantic_version\<close> library; neither is part of this module, so the model takes them as
  a parameter. \<open>Version_coerce\<close> is \<open>semver.Version.coerce\<close> and \<open>Spec_parse\<close> is the
  constructor \<open>semver.Spec\<close>; both raise \<open>ValueError\<close> on text they cannot read, which
  is the result \<open>None\<close> here. \<open>Spec_contains sp v\<close> is the test \<open>v in sp\<close>.
\<close>

record ('v, 's) semver_lib =
  normalize_version_tag :: "string \<Rightarrow> string"
  Version_coerce :: "string \<Rightarrow> 'v option"
  Spec_parse :: "string \<Rightarrow> 's option"
  Spec_contains :: "'s \<Rightarrow> 'v \<Rightarrow> bool"

text \<open>
  The file system as \<open>os.path\<close> sees it is a parameter too: \<open>realpath\<close> is
  \<open>os.path.realpath\<close> and \<open>path_exists\<close> is \<open>os.path.exists\<close>.
\<close>

record filesystem =
  realpath :: "string \<Rightarrow> string"
  path_exists :: "string \<Rightarrow> bool"

section \<open>PackageVersion\<close>

record 'v PackageVersion =
  "method" :: "string option"
  version :: "string option"
  req_semver :: "'v option"

text \<open>\<open>PackageVersion.__init__\<close>\<close>

definition PackageVersion_init :: "string option \<Rightarrow> string option \<Rightarrow> 'v PackageVersion" where
  "PackageVersion_init m v = \<lparr>method = m, version = v, req_semver = None\<rparr>"

text \<open>
  \<open>PackageVersion.fullfills\<close>. The method may assign \<open>self.req_semver\<close>, so the
  result carries the object after the call next to the returned pair; a raised exception
  leaves the object as it was.
\<close>

definition fullfills ::
  "('v, 's) semver_lib \<Rightarrow> 'v PackageVersion \<Rightarrow> string
     \<Rightarrow> error + ((string \<times> bool) \<times> 'v PackageVersion)" where
  "fullfills lib self version_spec =
     (if version_spec = ''*'' then Inr (('''', True), self)
      else if method self = Some TRACKING_METHOD_COMMIT then
        Inr ((''tracking method commit not compatible with '' @ dq @ version_spec @ dq, False),
             self)
      else if method self = Some TRACKING_METHOD_BRANCH then
        Inr ((''tracking method branch and commit'', False), self)
      else if prefix ''branch='' version_spec then
        (let branch = drop (length ''branch='') version_spec
         in Inr ((''branch '' @ branch @ '' requested, but using method '' @ fmt_opt (method self),
                  False), self))
      else
        (case (case req_semver self of
                 Some sv \<Rightarrow> Inr (sv, self)
               | None \<Rightarrow>
                   (case version self of
                      None \<Rightarrow> Inl AssertionError
                    | Some v \<Rightarrow>
                        if v = [] then Inl AssertionError
                        else (case Version_coerce lib (normalize_version_tag lib v) of
                                None \<Rightarrow> Inl ValueError
                              | Some sv \<Rightarrow> Inr (sv, self\<lparr>req_semver := Some sv\<rparr>)))) of
           Inl e \<Rightarrow> Inl e
         | Inr (sv, self') \<Rightarrow>
             (case Spec_parse lib version_spec of
                None \<Rightarrow> Inr ((''invalid semver spec: '' @ dq @ version_spec @ dq, False), self')
              | Some semver_spec \<Rightarrow>
                  if Spec_contains lib semver_spec sv then Inr (('''', True), self')
                  else Inr ((fmt_opt (version self') @ '' not in '' @ version_spec, False),
                            self'))))"

section \<open>Module functions\<close>

definition canonical_url :: "filesystem \<Rightarrow> string \<Rightarrow> string" where
  "canonical_url fs path =
     (let url = rstrip ''/'' path
      in if prefix ''.'' url \<or> prefix ''/'' url then realpath fs url else url)"

text \<open>
  \<open>name_from_path\<close> takes the element at index \<open>-1\<close> of a \<open>split\<close>, which is never
  empty, so the index is always in range.
\<close>

definition name_from_path :: "filesystem \<Rightarrow> string \<Rightarrow> string" where
  "name_from_path fs path = last (str_split CHR ''/'' (canonical_url fs path))"

text \<open>The slice \<open>xs[::2]\<close>; \<open>xs[1::2]\<close> is the same slice of \<open>drop 1 xs\<close>.\<close>

fun every_other :: "'a list \<Rightarrow> 'a list" where
  "every_other [] = []"
| "every_other [x] = [x]"
| "every_other (x # y # xs) = x # every_other xs"

text \<open>The loop of \<open>dependencies\<close> over \<open>enumerate(keys)\<close>, threading \<open>rval\<close>.\<close>

fun dependencies_loop ::
  "string list \<Rightarrow> (nat \<times> string) list \<Rightarrow> (string \<rightharpoonup> string) \<Rightarrow> (string \<rightharpoonup> string)" where
  "dependencies_loop vals [] rval = rval"
| "dependencies_loop vals ((i, k) # rest) rval =
     dependencies_loop vals rest (if i < length vals then rval(k \<mapsto> vals ! i) else rval)"

definition dependencies ::
  "(string \<rightharpoonup> string) \<Rightarrow> string \<Rightarrow> (string \<rightharpoonup> string) option" where
  "dependencies metadata_dict field =
     (case metadata_dict field of
        None \<Rightarrow> Some Map.empty
      | Some depends \<Rightarrow>
          (let parts = split_ws depends;
               keys = every_other parts;
               vals = every_other (drop 1 parts)
           in if length keys \<noteq> length vals then None
              else Some (dependencies_loop vals (List.enumerate 0 keys) Map.empty)))"

section \<open>PackageStatus\<close>

record PackageStatus =
  is_loaded :: bool
  is_pinned :: bool
  is_outdated :: bool
  tracking_method :: "string option"
  current_version :: "string option"
  current_hash :: "string option"

section \<open>Package\<close>

text \<open>
  The attribute \<open>name\<close> is assigned only on some paths of the constructor; \<open>None\<close> is
  the attribute never assigned, and reading it then raises \<open>AttributeError\<close>.
\<close>

record Package =
  git_url :: string
  source :: string
  directory :: string
  metadata :: "string \<rightharpoonup> string"
  name :: "string option"

text \<open>
  \<open>Package.__init__\<close>. The arguments \<open>metadata\<close> and \<open>name\<close> default to Python's
  \<open>None\<close>.
\<close>

definition Package_init ::
  "filesystem \<Rightarrow> string \<Rightarrow> string \<Rightarrow> string \<Rightarrow> (string \<rightharpoonup> string) option
     \<Rightarrow> string option \<Rightarrow> bool \<Rightarrow> Package" where
  "Package_init fs git_url' source' directory' metadata' name' canonical =
     (let self0 = \<lparr>git_url = git_url', source = source', directory = directory',
                   metadata = (case metadata' of None \<Rightarrow> Map.empty | Some m \<Rightarrow> m),
                   name = None\<rparr>;
          self1 = (case name' of
                     None \<Rightarrow> self0
                   | Some n \<Rightarrow> if n \<noteq> [] then self0\<lparr>name := Some n\<rparr> else self0)
      in if \<not> canonical then
           (let self2 = self1\<lparr>git_url := canonical_url fs git_url'\<rparr>;
                self3 = (if source' = [] \<and> path_exists fs git_url'
                         then self2\<lparr>git_url := realpath fs (git_url self2)\<rparr>
                         else self2)
            in self3\<lparr>name := Some (name_from_path fs git_url')\<rparr>)
         else self1)"

definition is_builtin :: "Package \<Rightarrow> bool" where
  "is_builtin self = prefix BUILTIN_SCHEME (git_url self)"

definition name_with_source_directory :: "Package \<Rightarrow> error + string" where
  "name_with_source_directory self =
     (case name self of
        None \<Rightarrow> Inl AttributeError
      | Some n \<Rightarrow> if directory self \<noteq> [] then Inr (directory self @ ''/'' @ n) else Inr n)"

definition qualified_name :: "Package \<Rightarrow> error + string" where
  "qualified_name self =
     (if source self \<noteq> [] then
        (case name_with_source_directory self of
           Inl e \<Rightarrow> Inl e
         | Inr n \<Rightarrow> Inr (source self @ ''/'' @ n))
      else Inr (git_url self))"

text \<open>\<open>Package.__str__\<close>\<close>

definition Package_str :: "Package \<Rightarrow> error + string" where
  "Package_str self = qualified_name self"





definition Package_hash :: "(string \<Rightarrow> int) \<Rightarrow> Package \<Rightarrow> error + int" where
  "Package_hash h self = (case Package_str self of Inl e \<Rightarrow> Inl e | Inr a \<Rightarrow> Inr (h a))"

text \<open>
  The loop of \<open>matches_path\<close> over \<open>reversed(list(enumerate(path_parts)))\<close>; \<open>n\<close> is
  \<open>len(path_parts)\<close>.
\<close>

fun matches_path_loop :: "nat \<Rightarrow> string list \<Rightarrow> (nat \<times> string) list \<Rightarrow> error + bool" where
  "matches_path_loop n pkg_path_parts [] = Inr True"
| "matches_path_loop n pkg_path_parts ((i, part) # rest) =
     (let ri = int i - int n
      in case py_index pkg_path_parts ri of
           Inl e \<Rightarrow> Inl e
         | Inr x \<Rightarrow> if part \<noteq> x then Inr False
                    else matches_path_loop n pkg_path_parts rest)"

definition matches_path :: "Package \<Rightarrow> string \<Rightarrow> error + bool" where
  "matches_path self path =
     (let path_parts = str_split CHR ''/'' path
      in if source self \<noteq> [] then
           (case qualified_name self of
              Inl e \<Rightarrow> Inl e
            | Inr pkg_path \<Rightarrow>
                matches_path_loop (length path_parts) (str_split CHR ''/'' pkg_path)
                  (rev (List.enumerate 0 path_parts)))
         else if length path_parts = 1 then
           (case name self of
              None \<Rightarrow> Inl AttributeError
            | Some n \<Rightarrow> if last path_parts = n then Inr True else Inr (path = git_url self))
         else Inr (path = git_url self))"

section \<open>PackageInfo\<close>

record PackageInfo =
  package :: Package
  status :: "PackageStatus option"
  metadata :: "string \<rightharpoonup> string"
  versions :: "string list"
  metadata_version :: "string option"
  version_type :: string
  invalid_reason :: string
  metadata_file :: "string option"
  default_branch :: "string option"

text \<open>
  \<open>PackageInfo.__init__\<close>, with every argument given; \<open>None\<close> for \<open>metadata\<close> and
  \<open>versions\<close> is Python's \<open>None\<close>.
\<close>

definition PackageInfo_init ::
  "Package \<Rightarrow> PackageStatus option \<Rightarrow> (string \<rightharpoonup> string) option \<Rightarrow> string list option
     \<Rightarrow> string option \<Rightarrow> string \<Rightarrow> string \<Rightarrow> string option \<Rightarrow> string option
     \<Rightarrow> PackageInfo" where
  "PackageInfo_init package' status' metadata' versions' metadata_version' invalid_reason'
       version_type' metadata_file' default_branch' =
     \<lparr>PackageInfo.package = package',
      status = status',
      metadata = (case metadata' of None \<Rightarrow> Map.empty | Some m \<Rightarrow> m),
      versions = (case versions' of None \<Rightarrow> [] | Some vs \<Rightarrow> vs),
      metadata_version = metadata_version',
      version_type = version_type',
      invalid_reason = invalid_reason',
      metadata_file = metadata_file',
      default_branch = default_branch'\<rparr>"

definition best_version :: "PackageInfo \<Rightarrow> error + string" where
  "best_version self =
     (if versions self \<noteq> [] then Inr (last (versions self))
      else (case default_branch self of
              None \<Rightarrow> Inl AssertionError
            | Some b \<Rightarrow> if b = [] then Inl AssertionError else Inr b))"

definition make_builtin_package ::
  "filesystem \<Rightarrow> string \<Rightarrow> string \<Rightarrow> string option \<Rightarrow> PackageInfo" where
  "make_builtin_package fs name' current_version' current_hash' =
     (let package' = Package_init fs (BUILTIN_SCHEME @ name') BUILTIN_SOURCE [] None
                       (Some name') True;
          status' = \<lparr>is_loaded = True, is_pinned = True, is_outdated = False,
                     tracking_method = Some TRACKING_METHOD_BUILTIN,
                     current_version = Some current_version',
                     current_hash = current_hash'\<rparr>
      in PackageInfo_init package' (Some status') None (Some [current_version'])
           (Some []) [] [] None None)"

section \<open>InstalledPackage\<close>

record InstalledPackage =
  package :: Package
  status :: PackageStatus





definition InstalledPackage_fullfills ::
  "('v, 's) semver_lib \<Rightarrow> InstalledPackage \<Rightarrow> string
     \<Rightarrow> error + ((string \<times> bool) \<times> 'v PackageVersion)" where
  "InstalledPackage_fullfills lib self version_spec =
     fullfills lib
       (PackageVersion_init (tracking_method (status self)) (current_version (status self)))
       version_spec"

section \<open>A sample environment\<close>

text \<open>
  The theorems below hold for every semantic-version library and every file system. To
  evaluate the model on concrete inputs, this section fixes one of each. The library
  reads a version as dot-separated decimal numbers (after dropping a leading \<open>v\<close> that
  precedes a digit) and a requirement as comma-separated clauses \<open>>=V\<close> or \<open><V\<close>. In
  the file system no local path exists and every path is its own real path.
\<close>

definition digit_val :: "char \<Rightarrow> nat option" where
  "digit_val =
     map_of [(CHR ''0'', 0), (CHR ''1'', 1), (CHR ''2'', 2), (CHR ''3'', 3), (CHR ''4'', 4),
             (CHR ''5'', 5), (CHR ''6'', 6), (CHR ''7'', 7), (CHR ''8'', 8), (CHR ''9'', 9)]"

fun parse_nat_from :: "nat \<Rightarrow> string \<Rightarrow> nat option" where
  "parse_nat_from n [] = Some n"
| "parse_nat_from n (c # cs) =
     (case digit_val c of None \<Rightarrow> None | Some d \<Rightarrow> parse_nat_from (10 * n + d) cs)"

definition parse_nat :: "string \<Rightarrow> nat option" where
  "parse_nat s = (if s = [] then None else parse_nat_from 0 s)"

fun all_some :: "'a option list \<Rightarrow> 'a list option" where
  "all_some [] = Some []"
| "all_some (x # xs) =
     (case x of
        None \<Rightarrow> None
      | Some y \<Rightarrow> (case all_some xs of None \<Rightarrow> None | Some ys \<Rightarrow> Some (y # ys)))"

definition sample_normalize :: "string \<Rightarrow> string" where
  "sample_normalize tag =
     (case tag of
        c # d # rest \<Rightarrow> if c = CHR ''v'' \<and> digit_val d \<noteq> None then d # rest else tag
      | _ \<Rightarrow> tag)"

definition sample_coerce :: "string \<Rightarrow> nat list option" where
  "sample_coerce s = all_some (map parse_nat (str_split CHR ''.'' s))"

datatype sample_op = GreaterEq | Less

definition sample_clause :: "string \<Rightarrow> (sample_op \<times> nat list) option" where
  "sample_clause s =
     (if prefix ''>='' s then map_option (Pair GreaterEq) (sample_coerce (drop 2 s))
      else if prefix ''<'' s then map_option (Pair Less) (sample_coerce (drop 1 s))
      else None)"

definition sample_Spec :: "string \<Rightarrow> (sample_op \<times> nat list) list option" where
  "sample_Spec s = all_some (map sample_clause (str_split CHR '','' s))"

fun sample_holds :: "nat list \<Rightarrow> sample_op \<times> nat list \<Rightarrow> bool" where
  "sample_holds v (GreaterEq, w) = (w \<le> v)"
| "sample_holds v (Less, w) = (v < w)"

definition sample_semver :: "(nat list, (sample_op \<times> nat list) list) semver_lib" where
  "sample_semver =
     \<lparr>normalize_version_tag = sample_normalize,
      Version_coerce = sample_coerce,
      Spec_parse = sample_Spec,
      Spec_contains = (\<lambda>sp v. list_all (sample_holds v) sp)\<rparr>"

definition sample_fs :: filesystem where
  "sample_fs = \<lparr>realpath = (\<lambda>p. p), path_exists = (\<lambda>p. False)\<rparr>"


section \<open>The version spec matcher\<close>

text \<open>
  Claim C1. For every PackageVersion, whatever its tracking method, version string and
  memoized version, \<open>fullfills("*")\<close> returns \<open>("", True)\<close>. For every other spec a
  commit-tracked object returns a message with \<open>False\<close>, and so does a branch-tracked
  object, also for a spec \<open>branch=<name>\<close>. None of these calls changes the object.
\<close>

theorem fullfills_wildcard_commit_branch:
  "fullfills lib pv ''*'' = Inr (('''', True), pv) \<and>
   (version_spec \<noteq> ''*'' \<longrightarrow> method pv = Some TRACKING_METHOD_COMMIT \<longrightarrow>
      fullfills lib pv version_spec =
        Inr ((''tracking method commit not compatible with '' @ dq @ version_spec @ dq, False),
             pv)) \<and>
   (version_spec \<noteq> ''*'' \<longrightarrow> method pv = Some TRACKING_METHOD_BRANCH \<longrightarrow>
      fullfills lib pv version_spec = Inr ((''tracking method branch and commit'', False), pv)) \<and>
   (method pv = Some TRACKING_METHOD_BRANCH \<longrightarrow>
      fullfills lib pv (''branch='' @ branch) =
        Inr ((''tracking method branch and commit'', False), pv))"
  by (simp add: fullfills_def TRACKING_METHOD_BRANCH_def TRACKING_METHOD_COMMIT_def)

theorem fullfills_wildcard_commit_branch_witness:
  "fullfills sample_semver (PackageVersion_init (Some ''commit'') (Some ''4f0c2a1'')) ''*'' =
     Inr (('''', True), PackageVersion_init (Some ''commit'') (Some ''4f0c2a1'')) \<and>
   fullfills sample_semver (PackageVersion_init (Some ''commit'') (Some ''4f0c2a1'')) ''>=1.0.0'' =
     Inr ((''tracking method commit not compatible with '' @ dq @ ''>=1.0.0'' @ dq, False),
          PackageVersion_init (Some ''commit'') (Some ''4f0c2a1'')) \<and>
   fullfills sample_semver (PackageVersion_init (Some ''branch'') (Some ''main'')) ''>=1.0.0'' =
     Inr ((''tracking method branch and commit'', False),
          PackageVersion_init (Some ''branch'') (Some ''main'')) \<and>
   fullfills sample_semver (PackageVersion_init (Some ''branch'') (Some ''main'')) ''branch=main'' =
     Inr ((''tracking method branch and commit'', False),
          PackageVersion_init (Some ''branch'') (Some ''main''))"
  using
    fullfills_wildcard_commit_branch
      [of sample_semver "PackageVersion_init (Some ''commit'') (Some ''4f0c2a1'')" "''>=1.0.0''"]
    fullfills_wildcard_commit_branch
      [of sample_semver "PackageVersion_init (Some ''branch'') (Some ''main'')" "''>=1.0.0''"
          "''main''"]
  by (simp add: PackageVersion_init_def TRACKING_METHOD_BRANCH_def TRACKING_METHOD_COMMIT_def)

text \<open>
  Claim C2, as amended. For a version- or builtin-tracked PackageVersion built from a
  non-empty version string that the library can coerce, and a spec that is neither
  \<open>*\<close> nor starts with \<open>branch=\<close>: if the spec does not parse, \<open>fullfills\<close> returns
  the message \<open>invalid semver spec: "<spec>"\<close> (the spec between double quotes) with
  \<open>False\<close> and does not raise; otherwise it returns \<open>("", True)\<close> when the coerced
  version lies in the range and \<open>("<version> not in <spec>", False)\<close> when it does
  not. The coerced version is memoized in the object.
\<close>

theorem fullfills_semver_range:
  assumes "m = Some TRACKING_METHOD_VERSION \<or> m = Some TRACKING_METHOD_BUILTIN"
    and "v \<noteq> []"
    and "Version_coerce lib (normalize_version_tag lib v) = Some sv"
    and "version_spec \<noteq> ''*''"
    and "\<not> prefix ''branch='' version_spec"
  shows
    "(Spec_parse lib version_spec = None \<longrightarrow>
        fullfills lib (PackageVersion_init m (Some v)) version_spec =
          Inr ((''invalid semver spec: '' @ dq @ version_spec @ dq, False),
               \<lparr>method = m, version = Some v, req_semver = Some sv\<rparr>)) \<and>
     (Spec_parse lib version_spec = Some sp \<longrightarrow> Spec_contains lib sp sv \<longrightarrow>
        fullfills lib (PackageVersion_init m (Some v)) version_spec =
          Inr (('''', True), \<lparr>method = m, version = Some v, req_semver = Some sv\<rparr>)) \<and>
     (Spec_parse lib version_spec = Some sp \<longrightarrow> \<not> Spec_contains lib sp sv \<longrightarrow>
        fullfills lib (PackageVersion_init m (Some v)) version_spec =
          Inr ((v @ '' not in '' @ version_spec, False),
               \<lparr>method = m, version = Some v, req_semver = Some sv\<rparr>))"
proof -
  have not_commit: "m \<noteq> Some TRACKING_METHOD_COMMIT"
    using assms(1)
    by (auto simp add: TRACKING_METHOD_COMMIT_def TRACKING_METHOD_VERSION_def
          TRACKING_METHOD_BUILTIN_def)
  have not_branch: "m \<noteq> Some TRACKING_METHOD_BRANCH"
    using assms(1)
    by (auto simp add: TRACKING_METHOD_BRANCH_def TRACKING_METHOD_VERSION_def
          TRACKING_METHOD_BUILTIN_def)
  show ?thesis
    using not_commit not_branch assms(2-5)
    by (simp add: fullfills_def PackageVersion_init_def)
qed

lemma sample_coerce_1_2_3: "sample_coerce (sample_normalize ''v1.2.3'') = Some [1, 2, 3]"
  by (simp add: sample_coerce_def sample_normalize_def parse_nat_def digit_val_def)

lemma sample_Spec_not_a_spec: "sample_Spec ''not-a-spec'' = None"
  by (simp add: sample_Spec_def sample_clause_def)

lemma sample_Spec_range:
  "sample_Spec ''>=1.0.0,<2.0.0'' = Some [(GreaterEq, [1, 0, 0]), (Less, [2, 0, 0])]"
  by (simp add: sample_Spec_def sample_clause_def sample_coerce_def parse_nat_def digit_val_def)

lemma sample_Spec_lower: "sample_Spec ''>=2.0.0'' = Some [(GreaterEq, [2, 0, 0])]"
  by (simp add: sample_Spec_def sample_clause_def sample_coerce_def parse_nat_def digit_val_def)

theorem fullfills_semver_range_witness:
  "fullfills sample_semver (PackageVersion_init (Some ''version'') (Some ''v1.2.3''))
     ''>=1.0.0,<2.0.0'' =
     Inr (('''', True),
          \<lparr>method = Some ''version'', version = Some ''v1.2.3'', req_semver = Some [1, 2, 3]\<rparr>) \<and>
   fullfills sample_semver (PackageVersion_init (Some ''version'') (Some ''v1.2.3''))
     ''>=2.0.0'' =
     Inr ((''v1.2.3 not in >=2.0.0'', False),
          \<lparr>method = Some ''version'', version = Some ''v1.2.3'', req_semver = Some [1, 2, 3]\<rparr>) \<and>
   fullfills sample_semver (PackageVersion_init (Some ''builtin'') (Some ''v1.2.3''))
     ''not-a-spec'' =
     Inr ((''invalid semver spec: '' @ dq @ ''not-a-spec'' @ dq, False),
          \<lparr>method = Some ''builtin'', version = Some ''v1.2.3'', req_semver = Some [1, 2, 3]\<rparr>)"
  using
    fullfills_semver_range
      [of "Some ''version''" "''v1.2.3''" sample_semver "[1, 2, 3]" "''>=1.0.0,<2.0.0''"
          "[(GreaterEq, [1, 0, 0]), (Less, [2, 0, 0])]"]
    fullfills_semver_range
      [of "Some ''version''" "''v1.2.3''" sample_semver "[1, 2, 3]" "''>=2.0.0''"
          "[(GreaterEq, [2, 0, 0])]"]
    fullfills_semver_range
      [of "Some ''builtin''" "''v1.2.3''" sample_semver "[1, 2, 3]" "''not-a-spec''"]
  by (simp add: sample_semver_def sample_coerce_1_2_3 sample_Spec_not_a_spec sample_Spec_range
        sample_Spec_lower TRACKING_METHOD_VERSION_def TRACKING_METHOD_BUILTIN_def)

theorem fullfills_semver_range_counterexample:
  "fullfills sample_semver (PackageVersion_init (Some ''version'') None) ''>=1.0.0'' =
     Inl AssertionError \<and>
   fullfills sample_semver (PackageVersion_init (Some ''version'') (Some ''v1.2.3''))
     ''not-a-spec'' =
     Inr ((''invalid semver spec: '' @ dq @ ''not-a-spec'' @ dq, False),
          \<lparr>method = Some ''version'', version = Some ''v1.2.3'', req_semver = Some [1, 2, 3]\<rparr>) \<and>
   ''invalid semver spec: '' @ dq @ ''not-a-spec'' @ dq \<noteq> ''invalid semver spec: not-a-spec''"
  by (simp add: fullfills_def PackageVersion_init_def sample_semver_def sample_coerce_1_2_3
        sample_Spec_not_a_spec TRACKING_METHOD_COMMIT_def TRACKING_METHOD_BRANCH_def dq_def)
text \<open>
  Claim C3, as amended. \<open>fullfills\<close> on a freshly built PackageVersion returns a
  \<open>(message, ok)\<close> pair, without raising, exactly when the spec is \<open>*\<close>, or the
  tracking method is commit or branch, or the spec starts with \<open>branch=\<close>, or the
  version string is present, not empty and accepted by the library's coercion. A spec
  that does not parse never makes it raise. With an absent or empty version string on
  the remaining path it raises \<open>AssertionError\<close>.
\<close>

theorem fullfills_returns_iff:
  "((\<exists>r. fullfills lib (PackageVersion_init m ver) version_spec = Inr r) \<longleftrightarrow>
      (version_spec = ''*'' \<or> m = Some TRACKING_METHOD_COMMIT \<or> m = Some TRACKING_METHOD_BRANCH \<or>
       prefix ''branch='' version_spec \<or>
       (\<exists>v. ver = Some v \<and> v \<noteq> [] \<and>
          Version_coerce lib (normalize_version_tag lib v) \<noteq> None))) \<and>
   (version_spec \<noteq> ''*'' \<longrightarrow> m \<noteq> Some TRACKING_METHOD_COMMIT \<longrightarrow>
    m \<noteq> Some TRACKING_METHOD_BRANCH \<longrightarrow> \<not> prefix ''branch='' version_spec \<longrightarrow>
    ver = None \<or> ver = Some [] \<longrightarrow>
      fullfills lib (PackageVersion_init m ver) version_spec = Inl AssertionError)"
  by (auto simp add: fullfills_def PackageVersion_init_def
        split: option.splits sum.splits if_splits)

theorem fullfills_returns_iff_witness:
  "(\<exists>r. fullfills sample_semver (PackageVersion_init (Some ''version'') (Some ''v1.2.3''))
          ''not-a-spec'' = Inr r) \<and>
   (\<exists>r. fullfills sample_semver (PackageVersion_init (Some ''commit'') None) ''>=1.0.0'' = Inr r) \<and>
   (\<nexists>r. fullfills sample_semver (PackageVersion_init None None) ''>=1.0.0'' = Inr r) \<and>
   fullfills sample_semver (PackageVersion_init (Some ''version'') None) ''not-a-spec'' =
     Inl AssertionError"
  using
    fullfills_returns_iff
      [of sample_semver "Some ''version''" "Some ''v1.2.3''" "''not-a-spec''"]
    fullfills_returns_iff [of sample_semver "Some ''commit''" None "''>=1.0.0''"]
    fullfills_returns_iff [of sample_semver None None "''>=1.0.0''"]
    fullfills_returns_iff [of sample_semver "Some ''version''" None "''not-a-spec''"]
  by (simp add: sample_semver_def sample_coerce_1_2_3 TRACKING_METHOD_COMMIT_def
        TRACKING_METHOD_BRANCH_def)

theorem fullfills_returns_iff_counterexample:
  "fullfills sample_semver (PackageVersion_init (Some ''builtin'') (Some [])) ''>=1.0.0'' =
     Inl AssertionError"
  by (simp add: fullfills_def PackageVersion_init_def TRACKING_METHOD_COMMIT_def
        TRACKING_METHOD_BRANCH_def)

section \<open>Package identity\<close>

lemma all_same_replicate: "(\<And>x. x \<in> set xs \<Longrightarrow> x = c) \<Longrightarrow> xs = replicate (length xs) c"
  by (induction xs) auto

lemma rstrip_decompose: "\<exists>k. s = rstrip [c] s @ replicate k c"
proof -
  define ys where "ys = rev (takeWhile (\<lambda>x. x \<in> set [c]) (rev s))"
  have "rev s = rev ys @ dropWhile (\<lambda>x. x \<in> set [c]) (rev s)"
    unfolding ys_def rev_rev_ident by (rule takeWhile_dropWhile_id [symmetric])
  then have "rev (rev s) = rev (rev ys @ dropWhile (\<lambda>x. x \<in> set [c]) (rev s))"
    by (rule arg_cong)
  then have split: "s = rstrip [c] s @ ys"
    by (simp only: rev_rev_ident rev_append rstrip_def)
  have "ys = replicate (length ys) c"
    by (rule all_same_replicate) (auto simp add: ys_def dest: set_takeWhileD)
  then have "rstrip [c] s @ ys = rstrip [c] s @ replicate (length ys) c"
    by (rule arg_cong)
  with split have "s = rstrip [c] s @ replicate (length ys) c"
    by (rule trans)
  then show ?thesis ..
qed

lemma rstrip_no_trailing: "\<not> suffix [c] (rstrip [c] s)"
proof
  assume "suffix [c] (rstrip [c] s)"
  then obtain ys where "rstrip [c] s = ys @ [c]"
    by (auto simp add: suffix_def)
  then have "dropWhile (\<lambda>x. x = c) (rev s) = c # rev ys"
    by (simp add: rstrip_def rev_swap)
  then show False
    by (metis (full_types) hd_dropWhile list.distinct(1) list.sel(1))
qed

lemma rstrip_first: "prefix [d] (rstrip [c] s) \<Longrightarrow> prefix [d] s"
proof -
  assume a: "prefix [d] (rstrip [c] s)"
  obtain k where "s = rstrip [c] s @ replicate k c"
    using rstrip_decompose by blast
  then have "prefix (rstrip [c] s) s"
    by (metis prefixI)
  with a show ?thesis
    by (rule prefix_order.trans)
qed

text \<open>
  Claim C6, as amended. \<open>canonical_url\<close> strips every trailing slash: for a locator
  that begins with neither \<open>.\<close> nor \<open>/\<close>, the result is the locator without its
  whole run of trailing slashes (so it never ends in a slash), whatever the file system
  is; path resolution applies only to locators beginning with \<open>.\<close> or \<open>/\<close>.
\<close>

theorem canonical_url_strips_all:
  assumes "\<not> prefix ''.'' locator" and "\<not> prefix ''/'' locator"
  shows "canonical_url fs locator = rstrip ''/'' locator \<and>
         (\<exists>k. locator = canonical_url fs locator @ replicate k CHR ''/'') \<and>
         \<not> suffix ''/'' (canonical_url fs locator)"
proof -
  have "\<not> prefix ''.'' (rstrip ''/'' locator)" and "\<not> prefix ''/'' (rstrip ''/'' locator)"
    using assms rstrip_first by blast+
  then have eq: "canonical_url fs locator = rstrip ''/'' locator"
    by (simp add: canonical_url_def)
  show ?thesis
    unfolding eq using rstrip_decompose [of locator "CHR ''/''"] rstrip_no_trailing
    by blast
qed

theorem canonical_url_strips_all_witness:
  "canonical_url sample_fs ''https://example.com/org/foo//'' = ''https://example.com/org/foo''"
  using canonical_url_strips_all [of "''https://example.com/org/foo//''" sample_fs]
  by (simp add: rstrip_def)

theorem canonical_url_strips_all_counterexample:
  "canonical_url sample_fs ''https://example.com/org/foo//'' = ''https://example.com/org/foo'' \<and>
   ''https://example.com/org/foo'' \<noteq> butlast ''https://example.com/org/foo//''"
  by (simp add: canonical_url_def rstrip_def)

text \<open>
  Claim C4, as amended. For every construction with \<open>canonical=False\<close> the name of the
  constructed Package is \<open>name_from_path(git_url)\<close>, whether or not a name is supplied;
  an explicitly supplied, non-empty name becomes the name of the Package only when
  \<open>canonical=True\<close>.
\<close>

theorem Package_init_name:
  "(\<not> canonical \<longrightarrow>
      name (Package_init fs url src dir md nm canonical) = Some (name_from_path fs url)) \<and>
   (canonical \<longrightarrow> nm = Some n \<longrightarrow> n \<noteq> [] \<longrightarrow>
      name (Package_init fs url src dir md nm canonical) = Some n)"
  by (simp add: Package_init_def Let_def)

lemma name_from_path_example: "name_from_path sample_fs ''https://example.com/org/foo'' = ''foo''"
  by (simp add: name_from_path_def canonical_url_def rstrip_def)

theorem Package_init_name_witness:
  "name (Package_init sample_fs ''https://example.com/org/foo'' ''src'' [] None (Some ''bar'') False)
     = Some ''foo'' \<and>
   name (Package_init sample_fs ''https://example.com/org/foo'' ''src'' [] None (Some ''bar'') True)
     = Some ''bar''"
  using
    Package_init_name
      [of False sample_fs "''https://example.com/org/foo''" "''src''" "[]" None "Some ''bar''"]
    Package_init_name
      [of True sample_fs "''https://example.com/org/foo''" "''src''" "[]" None "Some ''bar''"
          "''bar''"]
  by (simp add: name_from_path_example)

theorem Package_init_name_counterexample:
  "name (Package_init sample_fs ''https://example.com/org/foo'' ''src'' [] None (Some ''bar'') False)
     = Some ''foo'' \<and>
   ''foo'' \<noteq> ''bar''"
  by (simp add: Package_init_def Let_def name_from_path_example)

section \<open>Matching a path against a package\<close>

lemma str_split_not_Nil: "str_split sep s \<noteq> []"
  by (induction s) (auto split: list.splits)

lemma str_split_no_sep: "sep \<notin> set s \<Longrightarrow> str_split sep s = [s]"
  by (induction s) auto

lemma str_split_length_one: "length (str_split sep s) = 1 \<longleftrightarrow> sep \<notin> set s"
proof (induction s)
  case Nil
  then show ?case by simp
next
  case (Cons c cs)
  show ?case
  proof (cases "c = sep")
    case True
    then show ?thesis
      using str_split_not_Nil [of sep cs] by simp
  next
    case False
    obtain w ws where "str_split sep cs = w # ws"
      using str_split_not_Nil [of sep cs] by (cases "str_split sep cs") auto
    with False Cons show ?thesis by simp
  qed
qed

lemma rev_enumerate_zip: "rev (List.enumerate 0 ps) = zip (rev [0..<length ps]) (rev ps)"
  by (simp add: enumerate_eq_zip zip_rev)

lemma py_index_from_end:
  assumes "i < n"
  shows "py_index qs (int i - int n) =
           (if n - i \<le> length qs then Inr (rev qs ! (n - Suc i)) else Inl IndexError)"
proof (cases "n - i \<le> length qs")
  case True
  with assms have "nat (int (length qs) + (int i - int n)) = length qs - (n - i)"
    by linarith
  moreover from assms True have "rev qs ! (n - Suc i) = qs ! (length qs - (n - i))"
    by (simp add: rev_nth Suc_diff_Suc)
  ultimately show ?thesis
    using assms True by (simp add: py_index_def)
next
  case False
  with assms show ?thesis
    by (auto simp add: py_index_def)
qed

text \<open>
  The loop compares the reversed components of the path, \<open>xs\<close>, with the reversed
  components of the qualified name, \<open>ys\<close>, and raises once \<open>ys\<close> is used up.
\<close>

lemma matches_path_loop_tail:
  "length xs \<le> n \<Longrightarrow> ys = drop (n - length xs) (rev qs) \<Longrightarrow>
   matches_path_loop n qs (zip (rev [0..<length xs]) xs) =
     (if length xs \<le> length ys then Inr (prefix xs ys)
      else if prefix ys xs then Inl IndexError
      else Inr False)"
proof (induction xs arbitrary: ys)
  case Nil
  then show ?case by simp
next
  case (Cons x xs)
  define zs where "zs = drop (n - length xs) (rev qs)"
  have lt: "length xs < n" and le: "length xs \<le> n"
    using Cons.prems(1) by simp_all
  have idx: "py_index qs (int (length xs) - int n) =
      (if n - length xs \<le> length qs then Inr (rev qs ! (n - Suc (length xs)))
       else Inl IndexError)"
    using lt by (rule py_index_from_end)
  have step: "matches_path_loop n qs (zip (rev [0..<length (x # xs)]) (x # xs)) =
      (case py_index qs (int (length xs) - int n) of
         Inl e \<Rightarrow> Inl e
       | Inr y \<Rightarrow> if x \<noteq> y then Inr False
                  else matches_path_loop n qs (zip (rev [0..<length xs]) xs))"
    by simp
  have IH: "matches_path_loop n qs (zip (rev [0..<length xs]) xs) =
      (if length xs \<le> length zs then Inr (prefix xs zs)
       else if prefix zs xs then Inl IndexError
       else Inr False)"
    using le zs_def by (rule Cons.IH)
  have ys_drop: "ys = drop (n - Suc (length xs)) (rev qs)"
    using Cons.prems(2) by simp
  show ?case
  proof (cases "n - length xs \<le> length qs")
    case False
    then have "ys = []"
      using ys_drop by simp
    moreover have "py_index qs (int (length xs) - int n) = Inl IndexError"
      using idx False by simp
    ultimately show ?thesis
      using step by simp
  next
    case True
    with lt have "n - Suc (length xs) < length (rev qs)" by simp
    then have "drop (n - Suc (length xs)) (rev qs) =
        rev qs ! (n - Suc (length xs)) # drop (Suc (n - Suc (length xs))) (rev qs)"
      by (rule Cons_nth_drop_Suc [symmetric])
    moreover have "Suc (n - Suc (length xs)) = n - length xs"
      using lt by simp
    ultimately have ys: "ys = rev qs ! (n - Suc (length xs)) # zs"
      using ys_drop zs_def by simp
    have "py_index qs (int (length xs) - int n) = Inr (rev qs ! (n - Suc (length xs)))"
      using idx True by simp
    then have "matches_path_loop n qs (zip (rev [0..<length (x # xs)]) (x # xs)) =
        (if x \<noteq> rev qs ! (n - Suc (length xs)) then Inr False
         else matches_path_loop n qs (zip (rev [0..<length xs]) xs))"
      using step by simp
    then show ?thesis
      unfolding IH ys by simp
  qed
qed

lemma matches_path_loop_result:
  "matches_path_loop (length ps) qs (rev (List.enumerate 0 ps)) =
     (if length ps \<le> length qs then Inr (suffix ps qs)
      else if suffix qs ps then Inl IndexError
      else Inr False)"
  using matches_path_loop_tail [of "rev ps" "length ps" "rev qs" qs]
  by (simp add: rev_enumerate_zip suffix_to_prefix)

text \<open>
  What \<open>matches_path\<close> does for a package with a source: it decides whether the
  components of the path are a suffix of the components of the qualified name as long
  as the path has no more components than the qualified name; a longer path that ends
  with all the components of the qualified name runs off the list.
\<close>

lemma matches_path_with_source:
  assumes "source p \<noteq> []" and "qualified_name p = Inr qn"
  shows "matches_path p path =
           (if length (str_split CHR ''/'' path) \<le> length (str_split CHR ''/'' qn)
            then Inr (suffix (str_split CHR ''/'' path) (str_split CHR ''/'' qn))
            else if suffix (str_split CHR ''/'' qn) (str_split CHR ''/'' path)
            then Inl IndexError
            else Inr False)"
  using assms by (simp add: matches_path_def Let_def matches_path_loop_result)

lemma matches_path_without_source:
  assumes "source p = []" and "name p = Some n"
  shows "matches_path p path = Inr ((CHR ''/'' \<notin> set path \<and> path = n) \<or> path = git_url p)"
proof (cases "CHR ''/'' \<in> set path")
  case True
  then have "length (str_split CHR ''/'' path) \<noteq> 1"
    using str_split_length_one [of "CHR ''/''" path] by simp
  with True assms show ?thesis
    by (simp add: matches_path_def Let_def)
next
  case False
  then have "str_split CHR ''/'' path = [path]"
    by (rule str_split_no_sep)
  with False assms show ?thesis
    by (simp add: matches_path_def Let_def)
qed
text \<open>
  Claim C5. For a package with a source, \<open>matches_path\<close> should return \<open>True\<close> exactly
  when the components of the path are a right-aligned suffix of the components of the
  qualified name, and \<open>False\<close> otherwise. For the package with qualified name
  \<open>src/alice/foo\<close> the paths \<open>foo\<close>, \<open>alice/foo\<close> and \<open>src/alice/foo\<close> match and
  \<open>bob/foo\<close> does not. The path \<open>x/src/alice/foo\<close> is no suffix either, but the call
  does not return \<open>False\<close>: after three equal components the loop reads index \<open>-4\<close>
  of a list of three and raises \<open>IndexError\<close>.
\<close>

theorem matches_path_longer_path:
  "qualified_name
     \<lparr>git_url = ''https://example.com/alice/foo'', source = ''src'', directory = ''alice'',
      Package.metadata = Map.empty, name = Some ''foo''\<rparr> = Inr ''src/alice/foo'' \<and>
   matches_path
     \<lparr>git_url = ''https://example.com/alice/foo'', source = ''src'', directory = ''alice'',
      Package.metadata = Map.empty, name = Some ''foo''\<rparr> ''foo'' = Inr True \<and>
   matches_path
     \<lparr>git_url = ''https://example.com/alice/foo'', source = ''src'', directory = ''alice'',
      Package.metadata = Map.empty, name = Some ''foo''\<rparr> ''alice/foo'' = Inr True \<and>
   matches_path
     \<lparr>git_url = ''https://example.com/alice/foo'', source = ''src'', directory = ''alice'',
      Package.metadata = Map.empty, name = Some ''foo''\<rparr> ''src/alice/foo'' = Inr True \<and>
   matches_path
     \<lparr>git_url = ''https://example.com/alice/foo'', source = ''src'', directory = ''alice'',
      Package.metadata = Map.empty, name = Some ''foo''\<rparr> ''bob/foo'' = Inr False \<and>
   \<not> suffix (str_split CHR ''/'' ''x/src/alice/foo'') (str_split CHR ''/'' ''src/alice/foo'') \<and>
   matches_path
     \<lparr>git_url = ''https://example.com/alice/foo'', source = ''src'', directory = ''alice'',
      Package.metadata = Map.empty, name = Some ''foo''\<rparr> ''x/src/alice/foo'' = Inl IndexError"
  by (simp add: matches_path_def qualified_name_def name_with_source_directory_def py_index_def
        enumerate_eq_zip upt_rec suffix_def)

section \<open>Equality and ordering by qualified name\<close>










section \<open>The dependency field\<close>

lemma length_every_other: "length (every_other xs) = (length xs + 1) div 2"
  by (induction xs rule: every_other.induct) simp_all

lemma nth_every_other: "2 * i < length xs \<Longrightarrow> every_other xs ! i = xs ! (2 * i)"
proof (induction xs arbitrary: i rule: every_other.induct)
  case 1
  then show ?case by simp
next
  case (2 x)
  then show ?case by simp
next
  case (3 x y xs)
  then show ?case by (cases i) simp_all
qed

lemma nth_every_other_tail:
  "2 * i + 1 < length xs \<Longrightarrow> every_other (drop 1 xs) ! i = xs ! (2 * i + 1)"
proof -
  assume a: "2 * i + 1 < length xs"
  then have "2 * i < length (drop 1 xs)" by simp
  then have "every_other (drop 1 xs) ! i = drop 1 xs ! (2 * i)"
    by (rule nth_every_other)
  also have "\<dots> = xs ! (1 + 2 * i)"
    using a by (intro nth_drop) simp
  finally show ?thesis by (simp add: add.commute)
qed

text \<open>The loop stores the pairs from left to right, so a later pair overwrites an earlier one.\<close>

lemma dependencies_loop_map_of:
  "k + length ks \<le> length vals \<Longrightarrow>
   dependencies_loop vals (List.enumerate k ks) rval =
     rval ++ map_of (rev (zip ks (drop k vals)))"
proof (induction ks arbitrary: k rval)
  case Nil
  then show ?case by simp
next
  case (Cons a ks)
  then have lt: "k < length vals" and le: "Suc k + length ks \<le> length vals"
    by simp_all
  have d: "drop k vals = vals ! k # drop (Suc k) vals"
    using lt by (rule Cons_nth_drop_Suc [symmetric])
  have "dependencies_loop vals (List.enumerate k (a # ks)) rval =
      dependencies_loop vals (List.enumerate (Suc k) ks) (rval(a \<mapsto> vals ! k))"
    using lt by simp
  also have "\<dots> = rval(a \<mapsto> vals ! k) ++ map_of (rev (zip ks (drop (Suc k) vals)))"
    using le by (rule Cons.IH)
  also have "\<dots> = rval ++ map_of (rev (zip (a # ks) (drop k vals)))"
    by (simp add: d map_add_def fun_eq_iff split: option.splits)
  finally show ?case .
qed

lemma map_of_rev_zip_dom:
  "length ks = length vs \<Longrightarrow> dom (map_of (rev (zip ks vs))) = set ks"
proof -
  assume len: "length ks = length vs"
  have "dom (map_of (rev (zip ks vs))) = fst ` set (zip ks vs)"
    by (simp add: dom_map_of_conv_image_fst)
  also have "\<dots> = set (map fst (zip ks vs))"
    by simp
  also have "\<dots> = set ks"
    using len by (simp only: map_fst_zip)
  finally show ?thesis .
qed

lemma map_of_rev_zip_last:
  "length ks = length vs \<Longrightarrow> i < length ks \<Longrightarrow>
   (\<And>j. i < j \<Longrightarrow> j < length ks \<Longrightarrow> ks ! j \<noteq> ks ! i) \<Longrightarrow>
   map_of (rev (zip ks vs)) (ks ! i) = Some (vs ! i)"
proof (induction ks vs arbitrary: i rule: list_induct2)
  case Nil
  then show ?case by simp
next
  case (Cons k ks v vs)
  show ?case
  proof (cases i)
    case 0
    have "k \<notin> set ks"
    proof
      assume "k \<in> set ks"
      then obtain j where "j < length ks" and "ks ! j = k"
        by (auto simp add: in_set_conv_nth)
      then show False
        using Cons.prems(2) [of "Suc j"] 0 by simp
    qed
    then have "map_of (rev (zip ks vs)) k = None"
      using map_of_rev_zip_dom [OF Cons.hyps] by (metis domIff)
    then show ?thesis
      using 0 by (simp add: map_add_def)
  next
    case (Suc i')
    have "map_of (rev (zip ks vs)) (ks ! i') = Some (vs ! i')"
    proof (rule Cons.IH)
      show "i' < length ks"
        using Cons.prems(1) Suc by simp
      show "ks ! j \<noteq> ks ! i'" if "i' < j" "j < length ks" for j
        using Cons.prems(2) [of "Suc j"] that Suc by simp
    qed
    then show ?thesis
      using Suc by (simp add: map_add_def)
  qed
qed
lemma dependencies_even:
  assumes "metadata_dict field = Some depends" and "even (length (split_ws depends))"
  shows "dependencies metadata_dict field =
           Some (map_of (rev (zip (every_other (split_ws depends))
                                  (every_other (drop 1 (split_ws depends))))))"
    and "length (every_other (split_ws depends)) = length (split_ws depends) div 2"
    and "length (every_other (drop 1 (split_ws depends))) = length (split_ws depends) div 2"
proof -
  let ?parts = "split_ws depends"
  let ?keys = "every_other ?parts"
  let ?vals = "every_other (drop 1 ?parts)"
  show lk: "length ?keys = length ?parts div 2"
    using assms(2) by (simp add: length_every_other)
  show lv: "length ?vals = length ?parts div 2"
    using assms(2) by (cases "length ?parts = 0") (simp_all add: length_every_other)
  have "0 + length ?keys \<le> length ?vals"
    using lk lv by simp
  then have "dependencies_loop ?vals (List.enumerate 0 ?keys) Map.empty =
      Map.empty ++ map_of (rev (zip ?keys (drop 0 ?vals)))"
    by (rule dependencies_loop_map_of)
  then show "dependencies metadata_dict field = Some (map_of (rev (zip ?keys ?vals)))"
    using assms(1) lk lv by (simp add: dependencies_def Let_def)
qed

lemma dependencies_odd:
  assumes "metadata_dict field = Some depends" and "odd (length (split_ws depends))"
  shows "dependencies metadata_dict field = None"
proof -
  have "length (every_other (split_ws depends)) \<noteq>
      length (every_other (drop 1 (split_ws depends)))"
    using assms(2) by (auto simp add: length_every_other elim!: oddE)
  then show ?thesis
    using assms(1) by (simp add: dependencies_def Let_def)
qed

text \<open>
  Claim C7, as amended. If the field is absent from the metadata the result is the empty
  map. If the whitespace tokenization of the field's value has an odd number of tokens
  the result is \<open>None\<close>, never a partial map. Otherwise the result is a map whose keys
  are the even-indexed tokens, and it maps an even-indexed token to the token that
  follows it provided the same name does not stand at a later even index: for a
  repeated name the last pair wins.
\<close>

theorem dependencies_result:
  "(metadata_dict field = None \<longrightarrow> dependencies metadata_dict field = Some Map.empty) \<and>
   (metadata_dict field = Some depends \<longrightarrow> odd (length (split_ws depends)) \<longrightarrow>
      dependencies metadata_dict field = None) \<and>
   (metadata_dict field = Some depends \<longrightarrow> even (length (split_ws depends)) \<longrightarrow>
      (\<exists>m. dependencies metadata_dict field = Some m \<and>
           dom m = {split_ws depends ! (2 * i) | i. 2 * i < length (split_ws depends)} \<and>
           (\<forall>i. 2 * i + 1 < length (split_ws depends) \<longrightarrow>
                (\<forall>j. i < j \<longrightarrow> 2 * j < length (split_ws depends) \<longrightarrow>
                     split_ws depends ! (2 * j) \<noteq> split_ws depends ! (2 * i)) \<longrightarrow>
                m (split_ws depends ! (2 * i)) = Some (split_ws depends ! (2 * i + 1)))))"
proof (intro conjI impI)
  assume "metadata_dict field = None"
  then show "dependencies metadata_dict field = Some Map.empty"
    by (simp add: dependencies_def)
next
  assume "metadata_dict field = Some depends" and "odd (length (split_ws depends))"
  then show "dependencies metadata_dict field = None"
    by (rule dependencies_odd)
next
  let ?parts = "split_ws depends"
  let ?keys = "every_other ?parts"
  let ?vals = "every_other (drop 1 ?parts)"
  let ?m = "map_of (rev (zip ?keys ?vals))"
  assume md: "metadata_dict field = Some depends" and ev: "even (length ?parts)"
  note res = dependencies_even [of metadata_dict field depends, OF md ev]
  have len: "length ?keys = length ?vals"
    using res(2,3) by simp
  have idx: "i < length ?keys \<longleftrightarrow> 2 * i < length ?parts" for i
    using res(2) ev by (auto elim!: evenE)
  have key: "?keys ! i = ?parts ! (2 * i)" if "2 * i < length ?parts" for i
    using that by (rule nth_every_other)
  have val: "?vals ! i = ?parts ! (2 * i + 1)" if "2 * i + 1 < length ?parts" for i
    using that by (rule nth_every_other_tail)
  have "dom ?m = set ?keys"
    using len by (rule map_of_rev_zip_dom)
  also have "\<dots> = {?keys ! i | i. i < length ?keys}"
    by (rule set_conv_nth)
  also have "\<dots> = {?parts ! (2 * i) | i. 2 * i < length ?parts}"
  proof (intro set_eqI iffI)
    fix x
    assume "x \<in> {?keys ! i | i. i < length ?keys}"
    then obtain i where "x = ?keys ! i" and "i < length ?keys"
      by blast
    then have "x = ?parts ! (2 * i)" and "2 * i < length ?parts"
      using key idx by simp_all
    then show "x \<in> {?parts ! (2 * i) | i. 2 * i < length ?parts}"
      by blast
  next
    fix x
    assume "x \<in> {?parts ! (2 * i) | i. 2 * i < length ?parts}"
    then obtain i where "x = ?parts ! (2 * i)" and "2 * i < length ?parts"
      by blast
    then have "x = ?keys ! i" and "i < length ?keys"
      using key idx by simp_all
    then show "x \<in> {?keys ! i | i. i < length ?keys}"
      by blast
  qed
  finally have dom: "dom ?m = {?parts ! (2 * i) | i. 2 * i < length ?parts}" .
  have last: "?m (?parts ! (2 * i)) = Some (?parts ! (2 * i + 1))"
    if i: "2 * i + 1 < length ?parts"
      and later: "\<forall>j. i < j \<longrightarrow> 2 * j < length ?parts \<longrightarrow> ?parts ! (2 * j) \<noteq> ?parts ! (2 * i)"
    for i
  proof -
    have i': "2 * i < length ?parts"
      using i by simp
    have "?m (?keys ! i) = Some (?vals ! i)"
    proof (rule map_of_rev_zip_last [OF len])
      show "i < length ?keys"
        using i' idx by simp
      show "?keys ! j \<noteq> ?keys ! i" if "i < j" "j < length ?keys" for j
        using that later idx key i' by simp
    qed
    then show ?thesis
      using key [OF i'] val [OF i] by simp
  qed
  show "\<exists>m. dependencies metadata_dict field = Some m \<and>
           dom m = {?parts ! (2 * i) | i. 2 * i < length ?parts} \<and>
           (\<forall>i. 2 * i + 1 < length ?parts \<longrightarrow>
                (\<forall>j. i < j \<longrightarrow> 2 * j < length ?parts \<longrightarrow>
                     ?parts ! (2 * j) \<noteq> ?parts ! (2 * i)) \<longrightarrow>
                m (?parts ! (2 * i)) = Some (?parts ! (2 * i + 1)))"
    using res(1) dom last by blast
qed
lemma split_ws_example:
  "split_ws ''zeek >=4.0.0 foo *'' = [''zeek'', ''>=4.0.0'', ''foo'', ''*'']"
  by (simp add: split_ws_def isspace_def)

lemma split_ws_single: "split_ws ''zeek'' = [''zeek'']"
  by (simp add: split_ws_def isspace_def)

lemma split_ws_repeated: "split_ws ''a 1 a 2'' = [''a'', ''1'', ''a'', ''2'']"
  by (simp add: split_ws_def isspace_def)

theorem dependencies_result_witness:
  "dependencies Map.empty ''depends'' = Some Map.empty \<and>
   dependencies [''depends'' \<mapsto> ''zeek''] ''depends'' = None \<and>
   (\<exists>m. dependencies [''depends'' \<mapsto> ''zeek >=4.0.0 foo *''] ''depends'' = Some m \<and>
        m ''zeek'' = Some ''>=4.0.0'' \<and> m ''foo'' = Some ''*'')"
proof -
  let ?md = "[''depends'' \<mapsto> ''zeek >=4.0.0 foo *'']"
  let ?parts = "split_ws ''zeek >=4.0.0 foo *''"
  have absent: "dependencies Map.empty ''depends'' = Some Map.empty"
    using dependencies_result [of Map.empty "''depends''"] by simp
  have malformed: "dependencies [''depends'' \<mapsto> ''zeek''] ''depends'' = None"
    using dependencies_result [of "[''depends'' \<mapsto> ''zeek'']" "''depends''" "''zeek''"]
    by (simp add: split_ws_single)
  have present: "?md ''depends'' = Some ''zeek >=4.0.0 foo *''"
    by simp
  have balanced: "even (length ?parts)"
    by (simp add: split_ws_example)
  from dependencies_result [of ?md "''depends''" "''zeek >=4.0.0 foo *''"] present balanced
  obtain m where m: "dependencies ?md ''depends'' = Some m"
    and last: "\<forall>i. 2 * i + 1 < length ?parts \<longrightarrow>
        (\<forall>j. i < j \<longrightarrow> 2 * j < length ?parts \<longrightarrow> ?parts ! (2 * j) \<noteq> ?parts ! (2 * i)) \<longrightarrow>
        m (?parts ! (2 * i)) = Some (?parts ! (2 * i + 1))"
    by blast
  have "m (?parts ! (2 * 0)) = Some (?parts ! (2 * 0 + 1))"
  proof (rule last [rule_format])
    show "2 * 0 + 1 < length ?parts"
      by (simp add: split_ws_example)
    show "?parts ! (2 * j) \<noteq> ?parts ! (2 * 0)" if "0 < j" "2 * j < length ?parts" for j
    proof -
      from that have "j = 1" by (simp add: split_ws_example)
      then show ?thesis by (simp add: split_ws_example)
    qed
  qed
  then have zeek: "m ''zeek'' = Some ''>=4.0.0''"
    by (simp add: split_ws_example)
  have "m (?parts ! (2 * 1)) = Some (?parts ! (2 * 1 + 1))"
  proof (rule last [rule_format])
    show "2 * 1 + 1 < length ?parts"
      by (simp add: split_ws_example)
    show "?parts ! (2 * j) \<noteq> ?parts ! (2 * 1)" if "1 < j" "2 * j < length ?parts" for j
      using that by (simp add: split_ws_example)
  qed
  then have foo: "m ''foo'' = Some ''*''"
    by (simp add: split_ws_example)
  show ?thesis
    using absent malformed m zeek foo by blast
qed

theorem dependencies_result_counterexample:
  "split_ws ''a 1 a 2'' = [''a'', ''1'', ''a'', ''2''] \<and>
   dependencies [''depends'' \<mapsto> ''a 1 a 2''] ''depends'' = Some [''a'' \<mapsto> ''2''] \<and>
   [''a'' \<mapsto> ''2''] ''a'' \<noteq> Some ''1''"
  by (simp add: dependencies_def split_ws_repeated enumerate_eq_zip upt_rec)

section \<open>The best version of a package\<close>

text \<open>
  Claim C10. \<open>best_version\<close> returns the last element of \<open>versions\<close> whenever that
  list is not empty, whatever \<open>default_branch\<close> is. When \<open>versions\<close> is empty it raises
  \<open>AssertionError\<close> if \<open>default_branch\<close> is \<open>None\<close> or the empty string, and returns
  \<open>default_branch\<close> otherwise: the operation is partial, with no fallback value.
\<close>

theorem best_version_cases:
  "(versions info = vs @ [v] \<longrightarrow> best_version info = Inr v) \<and>
   (versions info = [] \<longrightarrow> default_branch info = None \<or> default_branch info = Some [] \<longrightarrow>
      best_version info = Inl AssertionError) \<and>
   (versions info = [] \<longrightarrow> default_branch info = Some b \<longrightarrow> b \<noteq> [] \<longrightarrow>
      best_version info = Inr b)"
  by (auto simp add: best_version_def)

theorem best_version_cases_witness:
  "best_version (make_builtin_package sample_fs ''spicy'' ''1.8.1'' None) = Inr ''1.8.1'' \<and>
   best_version
     (PackageInfo_init (Package_init sample_fs ''https://example.com/org/foo'' [] [] None None False)
        None None (Some [''v1.0.0'', ''v1.1.0'']) (Some []) [] [] None (Some ''main'')) =
     Inr ''v1.1.0'' \<and>
   best_version
     (PackageInfo_init (Package_init sample_fs ''https://example.com/org/foo'' [] [] None None False)
        None None None (Some []) [] [] None None) = Inl AssertionError \<and>
   best_version
     (PackageInfo_init (Package_init sample_fs ''https://example.com/org/foo'' [] [] None None False)
        None None None (Some []) [] [] None (Some [])) = Inl AssertionError \<and>
   best_version
     (PackageInfo_init (Package_init sample_fs ''https://example.com/org/foo'' [] [] None None False)
        None None None (Some []) [] [] None (Some ''main'')) = Inr ''main''"
  using
    best_version_cases [of "make_builtin_package sample_fs ''spicy'' ''1.8.1'' None" "[]" "''1.8.1''"]
    best_version_cases
      [of "PackageInfo_init
             (Package_init sample_fs ''https://example.com/org/foo'' [] [] None None False)
             None None (Some [''v1.0.0'', ''v1.1.0'']) (Some []) [] [] None (Some ''main'')"
          "[''v1.0.0'']" "''v1.1.0''"]
    best_version_cases
      [of "PackageInfo_init
             (Package_init sample_fs ''https://example.com/org/foo'' [] [] None None False)
             None None None (Some []) [] [] None None"]
    best_version_cases
      [of "PackageInfo_init
             (Package_init sample_fs ''https://example.com/org/foo'' [] [] None None False)
             None None None (Some []) [] [] None (Some [])"]
    best_version_cases
      [of "PackageInfo_init
             (Package_init sample_fs ''https://example.com/org/foo'' [] [] None None False)
             None None None (Some []) [] [] None (Some ''main'')" _ _ "''main''"]
  by (simp add: make_builtin_package_def PackageInfo_init_def)

end
